theory Spec2Isabelle
  imports Complex_Main "HOL-Library.Word"
begin

section \<open>The metacommunity of src/metacommunity.h\<close>

text \<open>
  \<^verbatim>\<open>Metacommunity<Individual>\<close> owns a vector of patches, an age and an ODE solver bound to
  itself. The classes \<^verbatim>\<open>Patch\<close>, \<^verbatim>\<open>Parameters\<close> and \<^verbatim>\<open>ode::Solver\<close> and the helpers
  \<^verbatim>\<open>util::sum\<close> and \<^verbatim>\<open>util::check_length\<close> are declared in headers that metacommunity.h
  only includes. The patch and the solver are therefore parameters of every
  definition below (a record of operations over an arbitrary patch type \<open>'p\<close>, solver type
  \<open>'s\<close> and generator state \<open>'g\<close>), in the way the C++ class is a template over them.

  A \<^verbatim>\<open>double\<close> is a \<open>real\<close>: the metacommunity only copies doubles around, except for
  \<^verbatim>\<open>1.0/(double)j\<close> in \<^verbatim>\<open>add_seeds\<close>, which is represented by its denominator \<open>j\<close>.
  A \<^verbatim>\<open>size_t\<close> is a 64-bit word, so that \<^verbatim>\<open>j--\<close> wraps around below zero as it does in C++.
  Exceptions (\<^verbatim>\<open>Rf_error\<close>) and undefined behaviour are error values.
\<close>

type_synonym size_t = "64 word"

datatype error =
    Length_Error    \<comment> \<open>\<^verbatim>\<open>util::check_length\<close> found two different lengths\<close>
  | Out_Of_Range    \<comment> \<open>a read or write past the end of a vector (undefined in C++)\<close>
  | NaN_Draw        \<comment> \<open>\<^verbatim>\<open>R::rbinom\<close> returned NaN, which \<^verbatim>\<open>(int)\<close> cannot convert (undefined in C++)\<close>
  | Solver_Failure  \<comment> \<open>the solver gave up\<close>

subsection \<open>Parameters\<close>

text \<open>
  Of \<^verbatim>\<open>Parameters\<close> the metacommunity reads the field \<^verbatim>\<open>n_patches\<close> (an \<^verbatim>\<open>int\<close>) and
  \<^verbatim>\<open>size()\<close>, the number of species.
\<close>

record parameters =
  n_patches :: int
  n_strategies :: nat

subsection \<open>What the metacommunity asks of a patch\<close>

text \<open>
  The member functions of \<^verbatim>\<open>Patch<Individual>\<close> that the metacommunity calls. An output
  iterator is the list of values written through it; an input iterator is the list of
  values still to be read, and the function returns what is left of it.
\<close>

record ('p, 'g) patch_ops =
  p_ode_size :: "'p \<Rightarrow> size_t"
  p_ode_values :: "'p \<Rightarrow> real list"
  p_ode_values_set :: "real list \<Rightarrow> 'p \<Rightarrow> error + ('p \<times> real list)"
  p_ode_rates :: "'p \<Rightarrow> real list"
  p_births :: "'p \<Rightarrow> int list \<times> 'p"
  p_deaths :: "'g \<Rightarrow> 'p \<Rightarrow> 'g \<times> 'p"
  p_add_seeds :: "int list \<Rightarrow> 'p \<Rightarrow> error + 'p"
  p_add_seedlings :: "int list \<Rightarrow> 'p \<Rightarrow> error + 'p"
  p_r_clear :: "'p \<Rightarrow> 'p"
  p_r_n_individuals :: "'p \<Rightarrow> int list"
  p_new :: "parameters \<Rightarrow> 'p"

subsection \<open>The metacommunity state\<close>

record ('p, 's) metacommunity =
  pars :: parameters
  patches :: "'p list"
  age :: real
  ode_solver :: 's

definition size_mc :: "('p, 's) metacommunity \<Rightarrow> nat" where
  "size_mc m = length (patches m)"

definition n_species :: "('p, 's) metacommunity \<Rightarrow> nat" where
  "n_species m = n_strategies (pars m)"

definition r_age :: "('p, 's) metacommunity \<Rightarrow> real" where
  "r_age m = age m"

subsection \<open>The ODE interface\<close>

text \<open>\<^verbatim>\<open>ode_size\<close>: the loop adds \<^verbatim>\<open>patch->ode_size()\<close> to \<^verbatim>\<open>ret\<close>, starting from 0.\<close>

definition ode_size :: "('p, 'g) patch_ops \<Rightarrow> ('p, 's) metacommunity \<Rightarrow> size_t" where
  "ode_size ops m = foldl (\<lambda>ret patch. ret + p_ode_size ops patch) 0 (patches m)"

text \<open>\<^verbatim>\<open>ode_values\<close> and \<^verbatim>\<open>ode_rates\<close>: each patch writes at the iterator the previous one returned.\<close>

definition ode_values :: "('p, 'g) patch_ops \<Rightarrow> ('p, 's) metacommunity \<Rightarrow> real list" where
  "ode_values ops m = foldl (\<lambda>out patch. out @ p_ode_values ops patch) [] (patches m)"

definition ode_rates :: "('p, 'g) patch_ops \<Rightarrow> ('p, 's) metacommunity \<Rightarrow> real list" where
  "ode_rates ops m = foldl (\<lambda>out patch. out @ p_ode_rates ops patch) [] (patches m)"

text \<open>\<^verbatim>\<open>ode_values_set\<close>: each patch reads from where the previous one stopped.\<close>

fun ode_values_set_loop ::
  "('p, 'g) patch_ops \<Rightarrow> 'p list \<Rightarrow> real list \<Rightarrow> error + ('p list \<times> real list)" where
  "ode_values_set_loop ops [] it = Inr ([], it)"
| "ode_values_set_loop ops (patch # rest) it =
     (case p_ode_values_set ops it patch of
        Inl e \<Rightarrow> Inl e
      | Inr (patch', it') \<Rightarrow>
          (case ode_values_set_loop ops rest it' of
             Inl e \<Rightarrow> Inl e
           | Inr (rest', it'') \<Rightarrow> Inr (patch' # rest', it'')))"

definition ode_values_set ::
  "('p, 'g) patch_ops \<Rightarrow> real list \<Rightarrow> ('p, 's) metacommunity
    \<Rightarrow> error + (('p, 's) metacommunity \<times> real list)" where
  "ode_values_set ops it m =
     (case ode_values_set_loop ops (patches m) it of
        Inl e \<Rightarrow> Inl e
      | Inr (ps, it') \<Rightarrow> Inr (m\<lparr>patches := ps\<rparr>, it'))"

text \<open>\<^verbatim>\<open>derivs\<close>: \<^verbatim>\<open>ode_values_set(y); ode_rates(dydt);\<close> the time is not used.\<close>

definition derivs ::
  "('p, 'g) patch_ops \<Rightarrow> real \<Rightarrow> real list \<Rightarrow> ('p, 's) metacommunity
    \<Rightarrow> error + (real list \<times> ('p, 's) metacommunity)" where
  "derivs ops time y m =
     (case ode_values_set ops y m of
        Inl e \<Rightarrow> Inl e
      | Inr (m', it) \<Rightarrow> Inr (ode_rates ops m', m'))"

subsection \<open>Helpers of util.h\<close>

text \<open>
  Modelled from the spec: \<^verbatim>\<open>util::check_length\<close> is defined in util.h, of which only the
  calls are at hand. The design's error taxonomy has a wrong shape or a count mismatch
  "rejected eagerly", "surfaced to the caller": the check raises when the two lengths differ.
\<close>

definition check_length :: "nat \<Rightarrow> nat \<Rightarrow> error + unit" where
  "check_length received expected = (if expected \<noteq> received then Inl Length_Error else Inr ())"

text \<open>
  Modelled from the spec: \<^verbatim>\<open>util::sum\<close> is defined in util.h as well. It adds two count
  vectors entry by entry ("sums to a per-species total"), and a mismatch of the two lengths
  is a count mismatch in the sense above. The counts are unbounded integers: a total
  beyond the range of \<^verbatim>\<open>int\<close> is undefined in C++ and no property below depends on it.
\<close>

definition util_sum :: "int list \<Rightarrow> int list \<Rightarrow> error + int list" where
  "util_sum a b =
     (case check_length (length a) (length b) of
        Inl e \<Rightarrow> Inl e
      | Inr _ \<Rightarrow> Inr (map2 (+) a b))"

subsection \<open>The binomial draw\<close>

text \<open>
  \<^verbatim>\<open>R::rbinom(n, p)\<close> belongs to R's math library. \<^verbatim>\<open>add_seeds\<close> calls it with
  \<^verbatim>\<open>p = 1.0/(double)j\<close> for a \<^verbatim>\<open>size_t j\<close>, so the draw is modelled on \<open>n\<close> and \<open>j\<close>:
  \<^item> \<open>j = 0\<close>: \<open>p\<close> is \<^verbatim>\<open>+Inf\<close>, not a probability, and \<^verbatim>\<open>rbinom\<close> returns NaN (as it does
    for a negative \<open>n\<close>);
  \<^item> \<open>n = 0\<close>: the draw is 0, and \<open>j = 1\<close>: \<open>p\<close> is exactly 1 and the draw is \<open>n\<close>; neither
    consults the generator;
  \<^item> otherwise \<open>0 < p < 1\<close> and the draw is some count between 0 and \<open>n\<close>, chosen by the
    generator: the sampler \<open>smp\<close> stands for the generator's choice and is clamped to the
    support, so that every theorem about an arbitrary sampler covers every outcome of
    the random draw.
\<close>

datatype draw = NaN | Count int

type_synonym 'g sampler = "'g \<Rightarrow> int \<Rightarrow> size_t \<Rightarrow> int \<times> 'g"

definition rbinom :: "'g sampler \<Rightarrow> 'g \<Rightarrow> int \<Rightarrow> size_t \<Rightarrow> draw \<times> 'g" where
  "rbinom smp g n j =
     (if n < 0 \<or> j = 0 then (NaN, g)
      else if n = 0 then (Count 0, g)
      else if j = 1 then (Count n, g)
      else (case smp g n j of (u, g') \<Rightarrow> (Count (max 0 (min n u)), g')))"

subsection \<open>The stochastic part of a step\<close>

text \<open>
  \<^verbatim>\<open>births\<close>: \<^verbatim>\<open>n\<close> starts as \<^verbatim>\<open>size()\<close> zeros, \<^verbatim>\<open>size()\<close> being the number of patches, and
  every patch's births are added to it with \<^verbatim>\<open>util::sum\<close>. The function is not \<^verbatim>\<open>const\<close>:
  a patch may change when asked for its births.
\<close>

fun births_loop ::
  "('p, 'g) patch_ops \<Rightarrow> 'p list \<Rightarrow> int list \<Rightarrow> error + (int list \<times> 'p list)" where
  "births_loop ops [] n = Inr (n, [])"
| "births_loop ops (patch # rest) n =
     (case p_births ops patch of
        (b, patch') \<Rightarrow>
          (case util_sum n b of
             Inl e \<Rightarrow> Inl e
           | Inr n' \<Rightarrow>
               (case births_loop ops rest n' of
                  Inl e \<Rightarrow> Inl e
                | Inr (r, rest') \<Rightarrow> Inr (r, patch' # rest'))))"

definition births ::
  "('p, 'g) patch_ops \<Rightarrow> ('p, 's) metacommunity \<Rightarrow> error + (int list \<times> ('p, 's) metacommunity)" where
  "births ops m =
     (case births_loop ops (patches m) (replicate (size_mc m) 0) of
        Inl e \<Rightarrow> Inl e
      | Inr (n, ps) \<Rightarrow> Inr (n, m\<lparr>patches := ps\<rparr>))"

text \<open>\<^verbatim>\<open>deaths\<close>: every patch in turn, on the one generator.\<close>

fun deaths_loop :: "('p, 'g) patch_ops \<Rightarrow> 'p list \<Rightarrow> 'g \<Rightarrow> 'g \<times> 'p list" where
  "deaths_loop ops [] g = (g, [])"
| "deaths_loop ops (patch # rest) g =
     (case p_deaths ops g patch of
        (g', patch') \<Rightarrow> (case deaths_loop ops rest g' of (g'', rest') \<Rightarrow> (g'', patch' # rest')))"

definition deaths ::
  "('p, 'g) patch_ops \<Rightarrow> 'g \<Rightarrow> ('p, 's) metacommunity \<Rightarrow> 'g \<times> ('p, 's) metacommunity" where
  "deaths ops g m = (case deaths_loop ops (patches m) g of (g', ps) \<Rightarrow> (g', m\<lparr>patches := ps\<rparr>))"

text \<open>
  \<^verbatim>\<open>add_seeds\<close>, the inner loop \<^verbatim>\<open>for (size_t i = 0; i < size(); i++, j--)\<close>. The probability
  was computed before the loop from the value \<open>jp\<close> that \<open>j\<close> had then; \<open>j\<close> itself is
  decremented at the end of every pass. \<^verbatim>\<open>seeds[i]\<close> and \<^verbatim>\<open>seeds_i[i]\<close> are unchecked: an
  index past the end of either vector is \<open>Out_Of_Range\<close>.
\<close>

fun add_seeds_inner ::
  "'g sampler \<Rightarrow> size_t \<Rightarrow> nat list \<Rightarrow> 'g \<times> size_t \<times> int list \<times> int list
    \<Rightarrow> error + ('g \<times> size_t \<times> int list \<times> int list)" where
  "add_seeds_inner smp jp [] st = Inr st"
| "add_seeds_inner smp jp (i # is) (g, j, seeds, seeds_i) =
     (if length seeds \<le> i \<or> length seeds_i \<le> i then Inl Out_Of_Range
      else
        (case rbinom smp g (seeds ! i) jp of
           (NaN, g') \<Rightarrow> Inl NaN_Draw
         | (Count k, g') \<Rightarrow>
             add_seeds_inner smp jp is (g', j - 1, seeds[i := seeds ! i - k], seeds_i[i := k])))"

text \<open>
  The outer loop over the patches. \<open>n\<close> is \<^verbatim>\<open>size()\<close>. Besides the generator and the patches
  the model returns the vectors \<^verbatim>\<open>seeds_i\<close> handed to the patches, in patch order: the
  allocation.
\<close>

fun add_seeds_loop ::
  "('p, 'g) patch_ops \<Rightarrow> 'g sampler \<Rightarrow> nat \<Rightarrow> 'p list \<Rightarrow> 'g \<times> size_t \<times> int list
    \<Rightarrow> error + ('g \<times> 'p list \<times> int list list)" where
  "add_seeds_loop ops smp n [] (g, j, seeds) = Inr (g, [], [])"
| "add_seeds_loop ops smp n (patch # rest) (g, j, seeds) =
     (case add_seeds_inner smp j [0..<n] (g, j, seeds, replicate n 0) of
        Inl e \<Rightarrow> Inl e
      | Inr (g', j', seeds', seeds_i) \<Rightarrow>
          (case p_add_seeds ops seeds_i patch of
             Inl e \<Rightarrow> Inl e
           | Inr patch' \<Rightarrow>
               (case add_seeds_loop ops smp n rest (g', j', seeds') of
                  Inl e \<Rightarrow> Inl e
                | Inr (g'', rest', alloc) \<Rightarrow> Inr (g'', patch' # rest', seeds_i # alloc))))"

definition add_seeds ::
  "('p, 'g) patch_ops \<Rightarrow> 'g sampler \<Rightarrow> int list \<Rightarrow> 'g \<Rightarrow> ('p, 's) metacommunity
    \<Rightarrow> error + ('g \<times> ('p, 's) metacommunity \<times> int list list)" where
  "add_seeds ops smp seeds g m =
     (case add_seeds_loop ops smp (size_mc m) (patches m) (g, of_nat (size_mc m), seeds) of
        Inl e \<Rightarrow> Inl e
      | Inr (g', ps, alloc) \<Rightarrow> Inr (g', m\<lparr>patches := ps\<rparr>, alloc))"

text \<open>\<^verbatim>\<open>step_stochastic\<close>: \<^verbatim>\<open>deaths(); add_seeds(births());\<close>\<close>

definition step_stochastic ::
  "('p, 'g) patch_ops \<Rightarrow> 'g sampler \<Rightarrow> 'g \<Rightarrow> ('p, 's) metacommunity
    \<Rightarrow> error + ('g \<times> ('p, 's) metacommunity)" where
  "step_stochastic ops smp g m =
     (case deaths ops g m of
        (g1, m1) \<Rightarrow>
          (case births ops m1 of
             Inl e \<Rightarrow> Inl e
           | Inr (seeds, m2) \<Rightarrow>
               (case add_seeds ops smp seeds g1 m2 of
                  Inl e \<Rightarrow> Inl e
                | Inr (g2, m3, alloc) \<Rightarrow> Inr (g2, m3))))"

text \<open>
  \<^verbatim>\<open>r_step_stochastic\<close> puts an \<^verbatim>\<open>Rcpp::RNGScope\<close> around the call, which reads R's generator
  state on entry and writes it back on exit: the generator state is passed in and out.
\<close>

definition r_step_stochastic ::
  "('p, 'g) patch_ops \<Rightarrow> 'g sampler \<Rightarrow> 'g \<Rightarrow> ('p, 's) metacommunity
    \<Rightarrow> error + ('g \<times> ('p, 's) metacommunity)" where
  "r_step_stochastic ops smp g m = step_stochastic ops smp g m"

subsection \<open>The R interface\<close>

text \<open>An \<^verbatim>\<open>Rcpp::IntegerMatrix\<close>: its dimensions and its entries, column after column.\<close>

record int_matrix =
  nrow :: nat
  ncol :: nat
  entries :: "int list"

definition column :: "int_matrix \<Rightarrow> nat \<Rightarrow> int list" where
  "column seeds i = take (nrow seeds) (drop (i * nrow seeds) (entries seeds))"

text \<open>
  \<^verbatim>\<open>r_add_seedlings\<close>. The result is the exception that reaches the caller, if any, and the
  metacommunity as the call leaves it. A patch whose \<^verbatim>\<open>add_seedlings\<close> throws stops the loop;
  the patches before it keep their seedlings.
\<close>

fun r_add_seedlings_loop ::
  "('p, 'g) patch_ops \<Rightarrow> int_matrix \<Rightarrow> nat \<Rightarrow> 'p list \<Rightarrow> error option \<times> 'p list" where
  "r_add_seedlings_loop ops seeds i [] = (None, [])"
| "r_add_seedlings_loop ops seeds i (patch # rest) =
     (case p_add_seedlings ops (column seeds i) patch of
        Inl e \<Rightarrow> (Some e, patch # rest)
      | Inr patch' \<Rightarrow>
          (case r_add_seedlings_loop ops seeds (Suc i) rest of
             (r, rest') \<Rightarrow> (r, patch' # rest')))"

definition r_add_seedlings ::
  "('p, 'g) patch_ops \<Rightarrow> int_matrix \<Rightarrow> ('p, 's) metacommunity
    \<Rightarrow> error option \<times> ('p, 's) metacommunity" where
  "r_add_seedlings ops seeds m =
     (case check_length (ncol seeds) (size_mc m) of
        Inl e \<Rightarrow> (Some e, m)
      | Inr _ \<Rightarrow>
          (case check_length (nrow seeds) (n_species m) of
             Inl e \<Rightarrow> (Some e, m)
           | Inr _ \<Rightarrow>
               (case r_add_seedlings_loop ops seeds 0 (patches m) of
                  (r, ps) \<Rightarrow> (r, m\<lparr>patches := ps\<rparr>))))"

subsection \<open>The solver and the deterministic part of a step\<close>

text \<open>
  \<^verbatim>\<open>ode::Solver<Metacommunity>\<close> is constructed on \<^verbatim>\<open>this\<close> and calls back into the
  metacommunity while it steps. A step of the solver is therefore a tree of requests: it
  either finishes (with the new solver state, or failing), or asks for
  \<^verbatim>\<open>derivs(time, y, dydt)\<close> and goes on from the rates it gets back.
\<close>

datatype 's run = Done "error + 's" | Derivs real "real list" "real list \<Rightarrow> 's run"

text \<open>
  The four member functions of the solver that the metacommunity calls. \<^verbatim>\<open>set_state\<close> also
  sees the target's \<^verbatim>\<open>ode_size()\<close>, against which it checks the length of the vector.
\<close>

record 's solver_ops =
  s_set_state :: "size_t \<Rightarrow> real list \<Rightarrow> real \<Rightarrow> 's \<Rightarrow> error + 's"
  s_step :: "'s \<Rightarrow> 's run"
  s_get_time :: "'s \<Rightarrow> real"
  s_reset :: "'s \<Rightarrow> 's"
  s_new :: 's

text \<open>Running a step of the solver against the metacommunity: every request is answered by \<^verbatim>\<open>derivs\<close>.\<close>

primrec exec_run ::
  "('p, 'g) patch_ops \<Rightarrow> 's run \<Rightarrow> ('p, 's) metacommunity \<Rightarrow> error + ('s \<times> ('p, 's) metacommunity)" where
  "exec_run ops (Done r) = (\<lambda>m. case r of Inl e \<Rightarrow> Inl e | Inr s \<Rightarrow> Inr (s, m))"
| "exec_run ops (Derivs time y k) =
     (\<lambda>m. case derivs ops time y m of
             Inl e \<Rightarrow> Inl e
           | Inr (dydt, m') \<Rightarrow> exec_run ops (k dydt) m')"

text \<open>
  \<^verbatim>\<open>std::vector<double> y(ode_size()); ode_values(y.begin());\<close> The vector starts as
  \<^verbatim>\<open>ode_size()\<close> zeros and the patches write into it from the front; writing more values than
  it holds is a write past its end.
\<close>

definition packed_state :: "('p, 'g) patch_ops \<Rightarrow> ('p, 's) metacommunity \<Rightarrow> error + real list" where
  "packed_state ops m =
     (let n = unat (ode_size ops m); vs = ode_values ops m
      in if n < length vs then Inl Out_Of_Range else Inr (vs @ replicate (n - length vs) 0))"

definition step_deterministic ::
  "'s solver_ops \<Rightarrow> ('p, 'g) patch_ops \<Rightarrow> ('p, 's) metacommunity \<Rightarrow> error + ('p, 's) metacommunity" where
  "step_deterministic sops ops m =
     (case packed_state ops m of
        Inl e \<Rightarrow> Inl e
      | Inr y \<Rightarrow>
          (case s_set_state sops (ode_size ops m) y (age m) (ode_solver m) of
             Inl e \<Rightarrow> Inl e
           | Inr s1 \<Rightarrow>
               (case exec_run ops (s_step sops s1) m of
                  Inl e \<Rightarrow> Inl e
                | Inr (s2, m') \<Rightarrow> Inr (m'\<lparr>age := s_get_time sops s2, ode_solver := s2\<rparr>))))"

text \<open>\<^verbatim>\<open>step\<close>: \<^verbatim>\<open>step_deterministic(); step_stochastic();\<close>\<close>

definition step ::
  "'s solver_ops \<Rightarrow> ('p, 'g) patch_ops \<Rightarrow> 'g sampler \<Rightarrow> 'g \<Rightarrow> ('p, 's) metacommunity
    \<Rightarrow> error + ('g \<times> ('p, 's) metacommunity)" where
  "step sops ops smp g m =
     (case step_deterministic sops ops m of
        Inl e \<Rightarrow> Inl e
      | Inr m' \<Rightarrow> step_stochastic ops smp g m')"

definition r_step ::
  "'s solver_ops \<Rightarrow> ('p, 'g) patch_ops \<Rightarrow> 'g sampler \<Rightarrow> 'g \<Rightarrow> ('p, 's) metacommunity
    \<Rightarrow> error + ('g \<times> ('p, 's) metacommunity)" where
  "r_step sops ops smp g m = step sops ops smp g m"

text \<open>\<^verbatim>\<open>r_clear\<close>: the age back to 0, every patch cleared, then \<^verbatim>\<open>ode_solver.reset()\<close>.\<close>

definition r_clear ::
  "'s solver_ops \<Rightarrow> ('p, 'g) patch_ops \<Rightarrow> ('p, 's) metacommunity \<Rightarrow> ('p, 's) metacommunity" where
  "r_clear sops ops m =
     m\<lparr>age := 0, patches := map (p_r_clear ops) (patches m), ode_solver := s_reset sops (ode_solver m)\<rparr>"

text \<open>
  \<^verbatim>\<open>initialise\<close> and the constructor: \<^verbatim>\<open>n_patches\<close> new patches (none when \<^verbatim>\<open>n_patches\<close> is not
  positive), age 0, a new solver.
\<close>

definition initialise :: "('p, 'g) patch_ops \<Rightarrow> ('p, 's) metacommunity \<Rightarrow> ('p, 's) metacommunity" where
  "initialise ops m = m\<lparr>patches := replicate (nat (n_patches (pars m))) (p_new ops (pars m))\<rparr>"

definition Metacommunity ::
  "'s solver_ops \<Rightarrow> ('p, 'g) patch_ops \<Rightarrow> parameters \<Rightarrow> ('p, 's) metacommunity" where
  "Metacommunity sops ops p =
     initialise ops \<lparr>pars = p, patches = [], age = 0, ode_solver = s_new sops\<rparr>"

text \<open>A driver: one full \<^verbatim>\<open>step()\<close>, then the deterministic part of the next one.\<close>

definition step_then_step_deterministic ::
  "'s solver_ops \<Rightarrow> ('p, 'g) patch_ops \<Rightarrow> 'g sampler \<Rightarrow> 'g \<Rightarrow> ('p, 's) metacommunity
    \<Rightarrow> error + ('p, 's) metacommunity" where
  "step_then_step_deterministic sops ops smp g m =
     (case step sops ops smp g m of
        Inl e \<Rightarrow> Inl e
      | Inr (g', m') \<Rightarrow> step_deterministic sops ops m')"

section \<open>The sequential binomial scheme of the design\<close>

text \<open>
  The scheme as the design document words it, for comparison with \<^verbatim>\<open>add_seeds\<close>: the
  patches are processed in a fixed order; with \<open>j\<close> patches not yet processed, the next
  patch draws, for every species, \<open>Binomial(remaining, 1/j)\<close> seeds, which are subtracted
  from the remaining pool; then \<open>j\<close> is decremented.
\<close>

fun scheme_patch ::
  "'g sampler \<Rightarrow> size_t \<Rightarrow> int list \<Rightarrow> 'g \<Rightarrow> error + ('g \<times> int list \<times> int list)" where
  "scheme_patch smp j [] g = Inr (g, [], [])"
| "scheme_patch smp j (r # remaining) g =
     (case rbinom smp g r j of
        (NaN, g') \<Rightarrow> Inl NaN_Draw
      | (Count k, g') \<Rightarrow>
          (case scheme_patch smp j remaining g' of
             Inl e \<Rightarrow> Inl e
           | Inr (g'', left, drawn) \<Rightarrow> Inr (g'', (r - k) # left, k # drawn)))"

fun scheme :: "'g sampler \<Rightarrow> nat \<Rightarrow> int list \<Rightarrow> 'g \<Rightarrow> error + ('g \<times> int list list)" where
  "scheme smp 0 remaining g = Inr (g, [])"
| "scheme smp (Suc j) remaining g =
     (case scheme_patch smp (of_nat (Suc j)) remaining g of
        Inl e \<Rightarrow> Inl e
      | Inr (g', left, drawn) \<Rightarrow>
          (case scheme smp j left g' of
             Inl e \<Rightarrow> Inl e
           | Inr (g'', alloc) \<Rightarrow> Inr (g'', drawn # alloc)))"

text \<open>The seeds of species \<open>i\<close> summed over an allocation (one vector per patch).\<close>

definition allocated :: "int list list \<Rightarrow> nat \<Rightarrow> int" where
  "allocated alloc i = sum_list (map (\<lambda>seeds_i. if i < length seeds_i then seeds_i ! i else 0) alloc)"

section \<open>A patch, a generator and a solver to run the metacommunity on\<close>

subsection \<open>The patch\<close>

text \<open>
  Modelled from the spec: \<^verbatim>\<open>Patch<Individual>\<close> is defined in patch.h, of which only the
  calls are at hand. After the design document a patch is its age and, for every species in index order, the
  cohort of its individuals in insertion order; an individual is its height. The state
  vector of a patch is the heights, species by species. Seeds become seedlings at the
  species' germination height, appended to the cohort; clearing empties the cohorts and
  sets the age to 0. Germination height, fecundity, growth rate and the death roll belong to
  collaborators the design leaves out: they are parameters.
\<close>

record patch =
  patch_age :: real
  cohorts :: "real list list"

record 'g externals =
  germination_height :: "nat \<Rightarrow> real"
  fecundity :: "nat \<Rightarrow> real \<Rightarrow> int"
  growth_rate :: "nat \<Rightarrow> real \<Rightarrow> real"
  death_roll :: "'g \<Rightarrow> patch \<Rightarrow> 'g \<times> patch"

definition patch_ode_size :: "patch \<Rightarrow> size_t" where
  "patch_ode_size p = of_nat (length (concat (cohorts p)))"

definition patch_ode_values :: "patch \<Rightarrow> real list" where
  "patch_ode_values p = concat (cohorts p)"

fun set_cohorts :: "real list list \<Rightarrow> real list \<Rightarrow> error + (real list list \<times> real list)" where
  "set_cohorts [] it = Inr ([], it)"
| "set_cohorts (c # cs) it =
     (if length it < length c then Inl Out_Of_Range
      else
        (case set_cohorts cs (drop (length c) it) of
           Inl e \<Rightarrow> Inl e
         | Inr (cs', it') \<Rightarrow> Inr (take (length c) it # cs', it')))"

definition patch_ode_values_set :: "real list \<Rightarrow> patch \<Rightarrow> error + (patch \<times> real list)" where
  "patch_ode_values_set it p =
     (case set_cohorts (cohorts p) it of
        Inl e \<Rightarrow> Inl e
      | Inr (cs, it') \<Rightarrow> Inr (p\<lparr>cohorts := cs\<rparr>, it'))"

fun per_species :: "(nat \<Rightarrow> 'a \<Rightarrow> 'b) \<Rightarrow> nat \<Rightarrow> 'a list \<Rightarrow> 'b list" where
  "per_species f i [] = []"
| "per_species f i (c # cs) = f i c # per_species f (Suc i) cs"

definition patch_ode_rates :: "'g externals \<Rightarrow> patch \<Rightarrow> real list" where
  "patch_ode_rates ext p = concat (per_species (\<lambda>i c. map (growth_rate ext i) c) 0 (cohorts p))"

definition patch_births :: "'g externals \<Rightarrow> patch \<Rightarrow> int list \<times> patch" where
  "patch_births ext p = (per_species (\<lambda>i c. sum_list (map (fecundity ext i) c)) 0 (cohorts p), p)"

fun sow :: "'g externals \<Rightarrow> nat \<Rightarrow> int list \<Rightarrow> real list list \<Rightarrow> real list list" where
  "sow ext i (k # counts) (c # cs) =
     (c @ replicate (nat k) (germination_height ext i)) # sow ext (Suc i) counts cs"
| "sow ext i counts cs = cs"

definition patch_add_seeds :: "'g externals \<Rightarrow> int list \<Rightarrow> patch \<Rightarrow> error + patch" where
  "patch_add_seeds ext counts p =
     (case check_length (length counts) (length (cohorts p)) of
        Inl e \<Rightarrow> Inl e
      | Inr _ \<Rightarrow> Inr (p\<lparr>cohorts := sow ext 0 counts (cohorts p)\<rparr>))"

definition patch_r_clear :: "patch \<Rightarrow> patch" where
  "patch_r_clear p = p\<lparr>patch_age := 0, cohorts := map (\<lambda>c. []) (cohorts p)\<rparr>"

definition patch_r_n_individuals :: "patch \<Rightarrow> int list" where
  "patch_r_n_individuals p = map (\<lambda>c. int (length c)) (cohorts p)"

definition patch_new :: "parameters \<Rightarrow> patch" where
  "patch_new ps = \<lparr>patch_age = 0, cohorts = replicate (n_strategies ps) []\<rparr>"

definition spec_patch :: "'g externals \<Rightarrow> (patch, 'g) patch_ops" where
  "spec_patch ext =
     \<lparr>p_ode_size = patch_ode_size,
      p_ode_values = patch_ode_values,
      p_ode_values_set = patch_ode_values_set,
      p_ode_rates = patch_ode_rates ext,
      p_births = patch_births ext,
      p_deaths = death_roll ext,
      p_add_seeds = patch_add_seeds ext,
      p_add_seedlings = patch_add_seeds ext,
      p_r_clear = patch_r_clear,
      p_r_n_individuals = patch_r_n_individuals,
      p_new = patch_new\<rparr>"

subsection \<open>The generator\<close>

text \<open>
  A generator whose state is the list of the choices it will make: the sampler takes the
  next one (and 0 once the list is used up).
\<close>

fun tape_sampler :: "int list sampler" where
  "tape_sampler [] n j = (0, [])"
| "tape_sampler (u # g) n j = (u, g)"

subsection \<open>The solver\<close>

text \<open>
  Modelled from the spec: of \<^verbatim>\<open>ode::Solver\<close> only the calls are at hand. The design
  gives it \<^verbatim>\<open>set_state\<close> (which fails when the length of the vector is not the target's
  \<^verbatim>\<open>ode_size()\<close>), \<^verbatim>\<open>step\<close>, a time and \<^verbatim>\<open>reset\<close>. Its adaptive stepping scheme is not
  needed to run the examples and is replaced by one explicit Euler stage of a fixed size:
  the solver asks for the rates at its state, moves, and asks for the rates at the new
  state, which leaves the new state in the patches. It keeps a record of the calls it
  received. The theorems that are not about an example hold for every solver.
\<close>

datatype solver_call = Set_State "real list" real | Step | Reset

record solver =
  s_time :: real
  s_y :: "real list"
  s_calls :: "solver_call list"

definition euler_set_state :: "size_t \<Rightarrow> real list \<Rightarrow> real \<Rightarrow> solver \<Rightarrow> error + solver" where
  "euler_set_state n y t s =
     (if of_nat (length y) \<noteq> n then Inl Length_Error
      else Inr (s\<lparr>s_time := t, s_y := y, s_calls := s_calls s @ [Set_State y t]\<rparr>))"

definition euler_step :: "real \<Rightarrow> solver \<Rightarrow> solver run" where
  "euler_step dt s =
     Derivs (s_time s) (s_y s) (\<lambda>dydt.
       Derivs (s_time s + dt) (map2 (\<lambda>y d. y + dt * d) (s_y s) dydt) (\<lambda>dydt'.
         Done (Inr (s\<lparr>s_time := s_time s + dt,
                       s_y := map2 (\<lambda>y d. y + dt * d) (s_y s) dydt,
                       s_calls := s_calls s @ [Step]\<rparr>))))"

definition euler :: "real \<Rightarrow> solver solver_ops" where
  "euler dt =
     \<lparr>s_set_state = euler_set_state,
      s_step = euler_step dt,
      s_get_time = s_time,
      s_reset = (\<lambda>s. s\<lparr>s_calls := s_calls s @ [Reset]\<rparr>),
      s_new = \<lparr>s_time = 0, s_y = [], s_calls = []\<rparr>\<rparr>"

subsection \<open>Example communities\<close>

text \<open>
  Seedlings germinate at height 1, grow at rate 1, bear two seeds each, and nobody dies.
\<close>

definition simple_ext :: "int list externals" where
  "simple_ext =
     \<lparr>germination_height = (\<lambda>i. 1), fecundity = (\<lambda>i h. 2), growth_rate = (\<lambda>i h. 1),
      death_roll = (\<lambda>g p. (g, p))\<rparr>"

definition simple_patch :: "(patch, int list) patch_ops" where
  "simple_patch = spec_patch simple_ext"

text \<open>A community of one patch and one species with one seedling in it.\<close>

definition one_plant :: "(patch, solver) metacommunity" where
  "one_plant =
     \<lparr>pars = \<lparr>n_patches = 1, n_strategies = 1\<rparr>,
      patches = [\<lparr>patch_age = 0, cohorts = [[1]]\<rparr>],
      age = 0,
      ode_solver = \<lparr>s_time = 0, s_y = [], s_calls = []\<rparr>\<rparr>"

text \<open>Two patches and two species, with plants of both species in both patches.\<close>

definition two_by_two :: "(patch, solver) metacommunity" where
  "two_by_two =
     \<lparr>pars = \<lparr>n_patches = 2, n_strategies = 2\<rparr>,
      patches = [\<lparr>patch_age = 0, cohorts = [[3, 2], [1]]\<rparr>, \<lparr>patch_age = 0, cohorts = [[], [5, 4]]\<rparr>],
      age = 0,
      ode_solver = \<lparr>s_time = 0, s_y = [], s_calls = []\<rparr>\<rparr>"

section \<open>Properties of the ODE interface\<close>

lemma foldl_plus_sum_list:
  "foldl (\<lambda>ret x. ret + f x) (a :: size_t) xs = a + sum_list (map f xs)"
  by (induction xs arbitrary: a) (simp_all add: add.assoc)

lemma foldl_append_concat:
  "foldl (\<lambda>out x. out @ f x) a xs = a @ concat (map f xs)"
  by (induction xs arbitrary: a) simp_all

lemma ode_values_concat: "ode_values ops m = concat (map (p_ode_values ops) (patches m))"
  by (simp add: ode_values_def foldl_append_concat)

lemma ode_size_sum_list: "ode_size ops m = sum_list (map (p_ode_size ops) (patches m))"
  by (simp add: ode_size_def foldl_plus_sum_list)

lemma unat_sum_list:
  "unat (sum_list (map f xs) :: size_t) = sum_list (map (\<lambda>x. unat (f x)) xs) mod 2 ^ 64"
proof (induction xs)
  case Nil
  then show ?case by simp
next
  case (Cons x xs)
  have "unat (f x + sum_list (map f xs)) = (unat (f x) + unat (sum_list (map f xs))) mod 2 ^ 64"
    by (simp add: unat_word_ariths)
  also have "\<dots> = (unat (f x) + sum_list (map (\<lambda>x. unat (f x)) xs) mod 2 ^ 64) mod 2 ^ 64"
    by (simp only: Cons.IH)
  also have "\<dots> = (unat (f x) + sum_list (map (\<lambda>x. unat (f x)) xs)) mod 2 ^ 64"
    by (rule mod_add_right_eq)
  finally show ?case by simp
qed

text \<open>
  C8. \<^verbatim>\<open>ode_size()\<close> is computed from the patches at every call, so in every state of the
  metacommunity (whatever operation produced it: construction, a deterministic or
  stochastic step, \<^verbatim>\<open>add_seeds\<close>, \<^verbatim>\<open>r_add_seedlings\<close>, \<^verbatim>\<open>r_clear\<close>) it is the sum of the
  patches' \<^verbatim>\<open>ode_size()\<close>: as \<^verbatim>\<open>size_t\<close> values, and as numbers up to the 64 bits of a
  \<^verbatim>\<open>size_t\<close>.
\<close>

theorem ode_size_is_sum:
  "ode_size ops m = sum_list (map (p_ode_size ops) (patches m))
   \<and> unat (ode_size ops m)
       = sum_list (map (\<lambda>patch. unat (p_ode_size ops patch)) (patches m)) mod 2 ^ 64"
  by (simp add: ode_size_sum_list unat_sum_list)

lemma ode_values_set_loop_roundtrip:
  assumes "\<forall>patch \<in> set ps. \<forall>rest.
             p_ode_values_set ops (p_ode_values ops patch @ rest) patch = Inr (patch, rest)"
  shows "ode_values_set_loop ops ps (concat (map (p_ode_values ops) ps) @ rest) = Inr (ps, rest)"
  using assms by (induction ps) simp_all

lemma set_cohorts_roundtrip: "set_cohorts cs (concat cs @ rest) = Inr (cs, rest)"
  by (induction cs) simp_all

lemma spec_patch_roundtrip:
  "p_ode_values_set (spec_patch ext) (p_ode_values (spec_patch ext) p @ rest) p = Inr (p, rest)"
  by (simp add: spec_patch_def patch_ode_values_set_def patch_ode_values_def set_cohorts_roundtrip)

text \<open>
  C2. For every metacommunity whose patches read back what they wrote (the contract of
  the state vector protocol, which the patch class has to meet),
  \<^verbatim>\<open>ode_values_set\<close> applied to the output of \<^verbatim>\<open>ode_values\<close> uses the vector up and returns
  the same state, \<^verbatim>\<open>ode_values\<close> of the result is the same vector, and \<^verbatim>\<open>derivs\<close> on that
  vector does not change the state.
\<close>

theorem ode_values_roundtrip:
  assumes "\<forall>patch \<in> set (patches m). \<forall>rest.
             p_ode_values_set ops (p_ode_values ops patch @ rest) patch = Inr (patch, rest)"
  shows "ode_values_set ops (ode_values ops m) m = Inr (m, [])
       \<and> map_sum id (ode_values ops \<circ> fst) (ode_values_set ops (ode_values ops m) m)
           = Inr (ode_values ops m)
       \<and> derivs ops time (ode_values ops m) m = Inr (ode_rates ops m, m)"
proof -
  have "ode_values_set_loop ops (patches m) (ode_values ops m @ []) = Inr (patches m, [])"
    unfolding ode_values_concat by (rule ode_values_set_loop_roundtrip [OF assms])
  then have "ode_values_set ops (ode_values ops m) m = Inr (m, [])"
    by (simp add: ode_values_set_def)
  then show ?thesis by (simp add: derivs_def)
qed

theorem ode_values_roundtrip_witness:
  "ode_values simple_patch two_by_two = [3, 2, 1, 5, 4]
   \<and> ode_values_set simple_patch [3, 2, 1, 5, 4] two_by_two = Inr (two_by_two, [])
   \<and> derivs simple_patch 0 [3, 2, 1, 5, 4] two_by_two = Inr ([1, 1, 1, 1, 1], two_by_two)"
proof -
  have h: "\<forall>patch \<in> set (patches two_by_two). \<forall>rest.
      p_ode_values_set simple_patch (p_ode_values simple_patch patch @ rest) patch = Inr (patch, rest)"
    by (simp add: simple_patch_def spec_patch_roundtrip)
  have v: "ode_values simple_patch two_by_two = [3, 2, 1, 5, 4]"
    by (simp add: ode_values_def two_by_two_def simple_patch_def spec_patch_def patch_ode_values_def)
  have r: "ode_rates simple_patch two_by_two = [1, 1, 1, 1, 1]"
    by (simp add: ode_rates_def two_by_two_def simple_patch_def spec_patch_def patch_ode_rates_def
        simple_ext_def)
  show ?thesis using ode_values_roundtrip [OF h, of 0] by (simp add: v r)
qed

section \<open>Properties of the R interface\<close>

text \<open>
  C9. A seedling matrix whose number of columns is not the number of patches, or whose
  number of rows is not the number of species, is rejected by the two length checks that
  open \<^verbatim>\<open>r_add_seedlings\<close>: the caller gets the length error and the metacommunity is
  exactly as before the call.
\<close>

theorem r_add_seedlings_wrong_shape:
  assumes "ncol seeds \<noteq> size_mc m \<or> nrow seeds \<noteq> n_species m"
  shows "r_add_seedlings ops seeds m = (Some Length_Error, m)"
  using assms by (auto simp: r_add_seedlings_def check_length_def)

theorem r_add_seedlings_wrong_shape_witness:
  "ncol \<lparr>nrow = 2, ncol = 3, entries = [1, 0, 2, 0, 0, 1]\<rparr> \<noteq> size_mc two_by_two
   \<and> r_add_seedlings simple_patch \<lparr>nrow = 2, ncol = 3, entries = [1, 0, 2, 0, 0, 1]\<rparr> two_by_two
       = (Some Length_Error, two_by_two)
   \<and> nrow \<lparr>nrow = 1, ncol = 2, entries = [1, 2]\<rparr> \<noteq> n_species two_by_two
   \<and> r_add_seedlings simple_patch \<lparr>nrow = 1, ncol = 2, entries = [1, 2]\<rparr> two_by_two
       = (Some Length_Error, two_by_two)"
proof -
  have a: "ncol \<lparr>nrow = 2, ncol = 3, entries = [1, 0, 2, 0, 0, 1]\<rparr> \<noteq> size_mc two_by_two"
    by (simp add: size_mc_def two_by_two_def)
  have b: "nrow \<lparr>nrow = 1, ncol = 2, entries = [1, 2]\<rparr> \<noteq> n_species two_by_two"
    by (simp add: n_species_def two_by_two_def)
  show ?thesis
    using r_add_seedlings_wrong_shape
        [of "\<lparr>nrow = 2, ncol = 3, entries = [1, 0, 2, 0, 0, 1]\<rparr>" two_by_two simple_patch]
      r_add_seedlings_wrong_shape
        [of "\<lparr>nrow = 1, ncol = 2, entries = [1, 2]\<rparr>" two_by_two simple_patch]
      a b by simp
qed

section \<open>The deterministic step keeps the shape of the community\<close>

lemma ode_values_set_loop_frame:
  assumes "\<forall>it p p' it'. p_ode_values_set ops it p = Inr (p', it') \<longrightarrow>
             p_r_n_individuals ops p' = p_r_n_individuals ops p \<and> p_ode_size ops p' = p_ode_size ops p"
    and "ode_values_set_loop ops ps it = Inr (ps', it')"
  shows "length ps' = length ps
       \<and> map (p_r_n_individuals ops) ps' = map (p_r_n_individuals ops) ps
       \<and> map (p_ode_size ops) ps' = map (p_ode_size ops) ps"
  using assms(2)
proof (induction ps arbitrary: it ps')
  case Nil
  then show ?case by simp
next
  case (Cons p ps)
  from Cons.prems obtain p' it1 rest' where
    s: "p_ode_values_set ops it p = Inr (p', it1)"
    and l: "ode_values_set_loop ops ps it1 = Inr (rest', it')"
    and e: "ps' = p' # rest'"
    by (auto split: sum.splits prod.splits)
  from assms(1) s have "p_r_n_individuals ops p' = p_r_n_individuals ops p"
    "p_ode_size ops p' = p_ode_size ops p" by blast+
  with Cons.IH [OF l] e show ?case by simp
qed

lemma derivs_frame:
  assumes "\<forall>it p p' it'. p_ode_values_set ops it p = Inr (p', it') \<longrightarrow>
             p_r_n_individuals ops p' = p_r_n_individuals ops p \<and> p_ode_size ops p' = p_ode_size ops p"
    and "derivs ops time y m = Inr (dydt, m')"
  shows "length (patches m') = length (patches m)
       \<and> map (p_r_n_individuals ops) (patches m') = map (p_r_n_individuals ops) (patches m)
       \<and> map (p_ode_size ops) (patches m') = map (p_ode_size ops) (patches m)
       \<and> pars m' = pars m"
proof -
  from assms(2) obtain ps it' where
    l: "ode_values_set_loop ops (patches m) y = Inr (ps, it')" and e: "m' = m\<lparr>patches := ps\<rparr>"
    by (auto simp: derivs_def ode_values_set_def split: sum.splits prod.splits)
  from ode_values_set_loop_frame [OF assms(1) l] e show ?thesis by simp
qed

text \<open>Whatever the solver asks for, and however often: induction over its requests.\<close>

lemma exec_run_frame:
  assumes "\<forall>it p p' it'. p_ode_values_set ops it p = Inr (p', it') \<longrightarrow>
             p_r_n_individuals ops p' = p_r_n_individuals ops p \<and> p_ode_size ops p' = p_ode_size ops p"
    and "exec_run ops r m = Inr (s, m')"
  shows "length (patches m') = length (patches m)
       \<and> map (p_r_n_individuals ops) (patches m') = map (p_r_n_individuals ops) (patches m)
       \<and> map (p_ode_size ops) (patches m') = map (p_ode_size ops) (patches m)
       \<and> pars m' = pars m"
  using assms(2)
proof (induction r arbitrary: m)
  case (Done x)
  then show ?case by (auto split: sum.splits)
next
  case (Derivs time y k)
  from Derivs.prems obtain dydt m1 where
    d: "derivs ops time y m = Inr (dydt, m1)" and r: "exec_run ops (k dydt) m1 = Inr (s, m')"
    by (auto split: sum.splits prod.splits)
  have "k dydt \<in> range k" by simp
  from Derivs.IH [OF this r] derivs_frame [OF assms(1) d] show ?case by simp
qed

lemma set_cohorts_lengths:
  "set_cohorts cs it = Inr (cs', it') \<Longrightarrow> map length cs' = map length cs"
  by (induction cs arbitrary: it cs') (auto split: if_splits sum.splits prod.splits)

lemma spec_patch_frame:
  assumes "p_ode_values_set (spec_patch ext) it p = Inr (p', it')"
  shows "p_r_n_individuals (spec_patch ext) p' = p_r_n_individuals (spec_patch ext) p
     \<and> p_ode_size (spec_patch ext) p' = p_ode_size (spec_patch ext) p"
proof -
  from assms obtain cs where
    s: "set_cohorts (cohorts p) it = Inr (cs, it')" and e: "p' = p\<lparr>cohorts := cs\<rparr>"
    by (auto simp: spec_patch_def patch_ode_values_set_def split: sum.splits prod.splits)
  from set_cohorts_lengths [OF s] have m: "map length cs = map length (cohorts p)" .
  then have "map (\<lambda>c. int (length c)) cs = map (\<lambda>c. int (length c)) (cohorts p)"
    by (metis (no_types, lifting) list.map_comp comp_def map_eq_conv)
  moreover from m have "length (concat cs) = length (concat (cohorts p))"
    by (simp add: length_concat)
  ultimately show ?thesis using e
    by (simp add: spec_patch_def patch_r_n_individuals_def patch_ode_size_def)
qed

lemma step_deterministic_two_by_two:
  "step_deterministic (euler 1) simple_patch two_by_two =
     Inr \<lparr>pars = \<lparr>n_patches = 2, n_strategies = 2\<rparr>,
          patches = [\<lparr>patch_age = 0, cohorts = [[4, 3], [2]]\<rparr>, \<lparr>patch_age = 0, cohorts = [[], [6, 5]]\<rparr>],
          age = 1,
          ode_solver = \<lparr>s_time = 1, s_y = [4, 3, 2, 6, 5], s_calls = [Set_State [3, 2, 1, 5, 4] 0, Step]\<rparr>\<rparr>"
  by code_simp

text \<open>
  C10. Whenever \<^verbatim>\<open>ode_values_set\<close> of the patch class keeps a patch's individual counts and
  \<^verbatim>\<open>ode_size\<close> (it overwrites the state of the individuals that are there), a
  \<^verbatim>\<open>step_deterministic()\<close> that returns leaves the number of patches, the number of
  individuals per species in every patch, \<^verbatim>\<open>ode_size()\<close> and the parameters as they were,
  for every solver and every sequence of \<^verbatim>\<open>derivs\<close> calls it makes.
\<close>

theorem step_deterministic_frame:
  assumes "\<forall>it p p' it'. p_ode_values_set ops it p = Inr (p', it') \<longrightarrow>
             p_r_n_individuals ops p' = p_r_n_individuals ops p \<and> p_ode_size ops p' = p_ode_size ops p"
    and "step_deterministic sops ops m = Inr m'"
  shows "size_mc m' = size_mc m
       \<and> map (p_r_n_individuals ops) (patches m') = map (p_r_n_individuals ops) (patches m)
       \<and> ode_size ops m' = ode_size ops m
       \<and> pars m' = pars m"
proof -
  from assms(2) obtain s1 s2 m2 where
    r: "exec_run ops (s_step sops s1) m = Inr (s2, m2)"
    and e: "m' = m2\<lparr>age := s_get_time sops s2, ode_solver := s2\<rparr>"
    by (auto simp: step_deterministic_def split: sum.splits prod.splits)
  from exec_run_frame [OF assms(1) r] e show ?thesis
    by (simp add: size_mc_def ode_size_sum_list)
qed

theorem step_deterministic_frame_witness:
  "step_deterministic (euler 1) simple_patch two_by_two =
     Inr \<lparr>pars = \<lparr>n_patches = 2, n_strategies = 2\<rparr>,
          patches = [\<lparr>patch_age = 0, cohorts = [[4, 3], [2]]\<rparr>, \<lparr>patch_age = 0, cohorts = [[], [6, 5]]\<rparr>],
          age = 1,
          ode_solver = \<lparr>s_time = 1, s_y = [4, 3, 2, 6, 5], s_calls = [Set_State [3, 2, 1, 5, 4] 0, Step]\<rparr>\<rparr>
   \<and> map (p_r_n_individuals simple_patch) (patches two_by_two) = [[2, 1], [0, 2]]
   \<and> map (p_r_n_individuals simple_patch)
        [\<lparr>patch_age = 0, cohorts = [[4, 3], [2]]\<rparr>, \<lparr>patch_age = 0, cohorts = [[], [6, 5]]\<rparr>]
       = [[2, 1], [0, 2]]
   \<and> ode_size simple_patch two_by_two = 5"
proof -
  have h: "\<forall>it p p' it'. p_ode_values_set simple_patch it p = Inr (p', it') \<longrightarrow>
             p_r_n_individuals simple_patch p' = p_r_n_individuals simple_patch p
             \<and> p_ode_size simple_patch p' = p_ode_size simple_patch p"
    unfolding simple_patch_def using spec_patch_frame by blast
  have n: "map (p_r_n_individuals simple_patch) (patches two_by_two) = [[2, 1], [0, 2]]"
    by code_simp
  have z: "ode_size simple_patch two_by_two = 5" by code_simp
  show ?thesis
    using step_deterministic_frame [OF h step_deterministic_two_by_two]
      step_deterministic_two_by_two n z by simp
qed

section \<open>The stochastic step and the solver\<close>

lemma step_stochastic_frame:
  assumes "step_stochastic ops smp g m = Inr (g', m')"
  shows "ode_solver m' = ode_solver m \<and> age m' = age m \<and> pars m' = pars m"
  using assms
  by (auto simp: step_stochastic_def deaths_def births_def add_seeds_def
      split: prod.splits sum.splits)

text \<open>
  The parts of the stochastic step behave the same whatever the state of the solver, and
  hand it on as they found it.
\<close>

lemma deaths_solver:
  "deaths ops g (m\<lparr>ode_solver := s'\<rparr>) = map_prod id (\<lambda>m'. m'\<lparr>ode_solver := s'\<rparr>) (deaths ops g m)"
  by (simp add: deaths_def split: prod.splits)

lemma births_solver:
  "births ops (m\<lparr>ode_solver := s'\<rparr>)
     = map_sum id (map_prod id (\<lambda>m'. m'\<lparr>ode_solver := s'\<rparr>)) (births ops m)"
  by (simp add: births_def size_mc_def split: sum.splits prod.splits)

lemma add_seeds_solver:
  "add_seeds ops smp seeds g (m\<lparr>ode_solver := s'\<rparr>)
     = map_sum id (map_prod id (map_prod (\<lambda>m'. m'\<lparr>ode_solver := s'\<rparr>) id))
         (add_seeds ops smp seeds g m)"
  by (simp add: add_seeds_def size_mc_def split: sum.splits prod.splits)

lemma step_stochastic_solver:
  "step_stochastic ops smp g (m\<lparr>ode_solver := s'\<rparr>)
     = map_sum id (map_prod id (\<lambda>m'. m'\<lparr>ode_solver := s'\<rparr>)) (step_stochastic ops smp g m)"
  by (auto simp: step_stochastic_def deaths_solver births_solver add_seeds_solver
      split: sum.splits prod.splits)

lemma r_add_seedlings_solver:
  "r_add_seedlings ops seeds (m\<lparr>ode_solver := s'\<rparr>)
     = map_prod id (\<lambda>m'. m'\<lparr>ode_solver := s'\<rparr>) (r_add_seedlings ops seeds m)"
  by (simp add: r_add_seedlings_def size_mc_def n_species_def check_length_def
      split: sum.splits prod.splits)

text \<open>Examples: a stochastic step that completes, one that does not, and some of their parts.\<close>

lemma step_stochastic_one_plant:
  "step_stochastic simple_patch tape_sampler [] one_plant
     = Inr ([], one_plant\<lparr>patches := [\<lparr>patch_age = 0, cohorts = [[1, 1, 1]]\<rparr>]\<rparr>)"
  by code_simp

lemma step_deterministic_one_plant:
  "step_deterministic (euler 1) simple_patch one_plant =
     Inr \<lparr>pars = \<lparr>n_patches = 1, n_strategies = 1\<rparr>,
          patches = [\<lparr>patch_age = 0, cohorts = [[2]]\<rparr>],
          age = 1,
          ode_solver = \<lparr>s_time = 1, s_y = [2], s_calls = [Set_State [1] 0, Step]\<rparr>\<rparr>"
  by code_simp

lemma step_stochastic_two_by_two:
  "step_stochastic simple_patch tape_sampler [5] two_by_two = Inl NaN_Draw"
  by code_simp

lemma births_two_by_two: "births simple_patch two_by_two = Inr ([4, 6], two_by_two)"
  by code_simp

lemma r_clear_two_by_two:
  "r_clear (euler 1) simple_patch two_by_two =
     \<lparr>pars = \<lparr>n_patches = 2, n_strategies = 2\<rparr>,
      patches = [\<lparr>patch_age = 0, cohorts = [[], []]\<rparr>, \<lparr>patch_age = 0, cohorts = [[], []]\<rparr>],
      age = 0,
      ode_solver = \<lparr>s_time = 0, s_y = [], s_calls = [Reset]\<rparr>\<rparr>"
  by code_simp

text \<open>
  C6, as stated, fails: the community of one seedling takes a full step, in which the
  stochastic part raises the population of its patch from 1 to 3, and then the
  deterministic part of the next step. The solver has then received \<^verbatim>\<open>set_state\<close>,
  \<^verbatim>\<open>step\<close>, \<^verbatim>\<open>set_state\<close>, \<^verbatim>\<open>step\<close>, and no \<^verbatim>\<open>reset\<close>.
\<close>

theorem no_reset_after_step_stochastic:
  "map (p_r_n_individuals simple_patch) (patches one_plant) = [[1]]
   \<and> map_sum id (map (p_r_n_individuals simple_patch) \<circ> patches \<circ> snd)
        (step (euler 1) simple_patch tape_sampler [] one_plant) = Inr [[3]]
   \<and> map_sum id (s_calls \<circ> ode_solver)
        (step_then_step_deterministic (euler 1) simple_patch tape_sampler [] one_plant)
       = Inr [Set_State [1] 0, Step, Set_State [2, 1, 1] 1, Step]
   \<and> map_sum id ((\<in>) Reset \<circ> set \<circ> s_calls \<circ> ode_solver)
        (step_then_step_deterministic (euler 1) simple_patch tape_sampler [] one_plant)
       = Inr False"
  by code_simp

text \<open>
  C6, amended. \<^verbatim>\<open>reset()\<close> is what \<^verbatim>\<open>r_clear()\<close> does to the solver, after it has set the
  age to 0 and cleared every patch. \<^verbatim>\<open>deaths()\<close>, \<^verbatim>\<open>births()\<close>, \<^verbatim>\<open>add_seeds()\<close>,
  \<^verbatim>\<open>step_stochastic()\<close> and \<^verbatim>\<open>r_add_seedlings()\<close> neither read nor change the solver: run
  on the same metacommunity with any other solver state \<open>s'\<close> they end the same way,
  failing or not, with \<open>s'\<close> still in place; so a stochastic step that completes leaves the
  solver exactly as it was. Instead, every \<^verbatim>\<open>step_deterministic()\<close> that returns has first
  handed the freshly packed state vector and the current age to the solver's
  \<^verbatim>\<open>set_state\<close>, and the step ran from the solver state that came back.
\<close>

theorem solver_reset_only_by_r_clear:
  "age (r_clear sops ops m) = 0
   \<and> patches (r_clear sops ops m) = map (p_r_clear ops) (patches m)
   \<and> ode_solver (r_clear sops ops m) = s_reset sops (ode_solver m)
   \<and> deaths ops g (m\<lparr>ode_solver := s'\<rparr>)
       = map_prod id (\<lambda>m'. m'\<lparr>ode_solver := s'\<rparr>) (deaths ops g m)
   \<and> ode_solver (snd (deaths ops g m)) = ode_solver m
   \<and> births ops (m\<lparr>ode_solver := s'\<rparr>)
       = map_sum id (map_prod id (\<lambda>m'. m'\<lparr>ode_solver := s'\<rparr>)) (births ops m)
   \<and> add_seeds ops smp seeds g (m\<lparr>ode_solver := s'\<rparr>)
       = map_sum id (map_prod id (map_prod (\<lambda>m'. m'\<lparr>ode_solver := s'\<rparr>) id))
           (add_seeds ops smp seeds g m)
   \<and> step_stochastic ops smp g (m\<lparr>ode_solver := s'\<rparr>)
       = map_sum id (map_prod id (\<lambda>m'. m'\<lparr>ode_solver := s'\<rparr>)) (step_stochastic ops smp g m)
   \<and> (\<forall>g' m'. step_stochastic ops smp g m = Inr (g', m') \<longrightarrow> ode_solver m' = ode_solver m)
   \<and> r_add_seedlings ops mat (m\<lparr>ode_solver := s'\<rparr>)
       = map_prod id (\<lambda>m'. m'\<lparr>ode_solver := s'\<rparr>) (r_add_seedlings ops mat m)
   \<and> ode_solver (snd (r_add_seedlings ops mat m)) = ode_solver m
   \<and> (\<forall>m'. step_deterministic sops ops m = Inr m' \<longrightarrow>
        (\<exists>y s1 m''. packed_state ops m = Inr y
           \<and> s_set_state sops (ode_size ops m) y (age m) (ode_solver m) = Inr s1
           \<and> exec_run ops (s_step sops s1) m = Inr (ode_solver m', m'')))"
proof (intro conjI allI impI)
  show "age (r_clear sops ops m) = 0"
    and "patches (r_clear sops ops m) = map (p_r_clear ops) (patches m)"
    and "ode_solver (r_clear sops ops m) = s_reset sops (ode_solver m)"
    by (simp_all add: r_clear_def)
next
  show "deaths ops g (m\<lparr>ode_solver := s'\<rparr>)
       = map_prod id (\<lambda>m'. m'\<lparr>ode_solver := s'\<rparr>) (deaths ops g m)"
    by (rule deaths_solver)
next
  show "ode_solver (snd (deaths ops g m)) = ode_solver m"
    by (simp add: deaths_def split: prod.splits)
next
  show "births ops (m\<lparr>ode_solver := s'\<rparr>)
       = map_sum id (map_prod id (\<lambda>m'. m'\<lparr>ode_solver := s'\<rparr>)) (births ops m)"
    by (rule births_solver)
next
  show "add_seeds ops smp seeds g (m\<lparr>ode_solver := s'\<rparr>)
       = map_sum id (map_prod id (map_prod (\<lambda>m'. m'\<lparr>ode_solver := s'\<rparr>) id))
           (add_seeds ops smp seeds g m)"
    by (rule add_seeds_solver)
next
  show "step_stochastic ops smp g (m\<lparr>ode_solver := s'\<rparr>)
       = map_sum id (map_prod id (\<lambda>m'. m'\<lparr>ode_solver := s'\<rparr>)) (step_stochastic ops smp g m)"
    by (rule step_stochastic_solver)
next
  fix g' m' assume "step_stochastic ops smp g m = Inr (g', m')"
  then show "ode_solver m' = ode_solver m" by (simp add: step_stochastic_frame)
next
  show "r_add_seedlings ops mat (m\<lparr>ode_solver := s'\<rparr>)
       = map_prod id (\<lambda>m'. m'\<lparr>ode_solver := s'\<rparr>) (r_add_seedlings ops mat m)"
    by (rule r_add_seedlings_solver)
next
  show "ode_solver (snd (r_add_seedlings ops mat m)) = ode_solver m"
    by (simp add: r_add_seedlings_def split: sum.splits prod.splits)
next
  fix m' assume "step_deterministic sops ops m = Inr m'"
  then show "\<exists>y s1 m''. packed_state ops m = Inr y
           \<and> s_set_state sops (ode_size ops m) y (age m) (ode_solver m) = Inr s1
           \<and> exec_run ops (s_step sops s1) m = Inr (ode_solver m', m'')"
    by (auto simp: step_deterministic_def split: sum.splits prod.splits)
qed

theorem solver_reset_only_by_r_clear_witness:
  "r_clear (euler 1) simple_patch two_by_two =
     \<lparr>pars = \<lparr>n_patches = 2, n_strategies = 2\<rparr>,
      patches = [\<lparr>patch_age = 0, cohorts = [[], []]\<rparr>, \<lparr>patch_age = 0, cohorts = [[], []]\<rparr>],
      age = 0,
      ode_solver = \<lparr>s_time = 0, s_y = [], s_calls = [Reset]\<rparr>\<rparr>
   \<and> map (p_r_clear simple_patch) (patches two_by_two)
       = [\<lparr>patch_age = 0, cohorts = [[], []]\<rparr>, \<lparr>patch_age = 0, cohorts = [[], []]\<rparr>]
   \<and> s_reset (euler 1) (ode_solver two_by_two) = \<lparr>s_time = 0, s_y = [], s_calls = [Reset]\<rparr>
   \<and> step_stochastic simple_patch tape_sampler []
         (one_plant\<lparr>ode_solver := \<lparr>s_time = 3, s_y = [9], s_calls = [Step]\<rparr>\<rparr>)
       = Inr ([], one_plant\<lparr>patches := [\<lparr>patch_age = 0, cohorts = [[1, 1, 1]]\<rparr>],
                            ode_solver := \<lparr>s_time = 3, s_y = [9], s_calls = [Step]\<rparr>\<rparr>)
   \<and> ode_solver (snd (deaths simple_patch [5]
         (two_by_two\<lparr>ode_solver := \<lparr>s_time = 3, s_y = [9], s_calls = [Step]\<rparr>\<rparr>)))
       = \<lparr>s_time = 3, s_y = [9], s_calls = [Step]\<rparr>
   \<and> births simple_patch (two_by_two\<lparr>ode_solver := \<lparr>s_time = 3, s_y = [9], s_calls = [Step]\<rparr>\<rparr>)
       = Inr ([4, 6], two_by_two\<lparr>ode_solver := \<lparr>s_time = 3, s_y = [9], s_calls = [Step]\<rparr>\<rparr>)
   \<and> step_stochastic simple_patch tape_sampler [5]
         (two_by_two\<lparr>ode_solver := \<lparr>s_time = 3, s_y = [9], s_calls = [Step]\<rparr>\<rparr>)
       = Inl NaN_Draw
   \<and> ode_solver (snd (r_add_seedlings simple_patch \<lparr>nrow = 1, ncol = 1, entries = [2]\<rparr> one_plant))
       = ode_solver one_plant
   \<and> packed_state simple_patch one_plant = Inr [1]
   \<and> s_set_state (euler 1) (ode_size simple_patch one_plant) [1] (age one_plant) (ode_solver one_plant)
        = Inr \<lparr>s_time = 0, s_y = [1], s_calls = [Set_State [1] 0]\<rparr>"
proof -
  have p: "packed_state simple_patch one_plant = Inr [1]" by code_simp
  have s: "s_set_state (euler 1) (ode_size simple_patch one_plant) [1] (age one_plant)
             (ode_solver one_plant)
        = Inr \<lparr>s_time = 0, s_y = [1], s_calls = [Set_State [1] 0]\<rparr>" by code_simp
  have c: "map (p_r_clear simple_patch) (patches two_by_two)
       = [\<lparr>patch_age = 0, cohorts = [[], []]\<rparr>, \<lparr>patch_age = 0, cohorts = [[], []]\<rparr>]"
    by code_simp
  have r: "s_reset (euler 1) (ode_solver two_by_two) = \<lparr>s_time = 0, s_y = [], s_calls = [Reset]\<rparr>"
    by (simp add: euler_def two_by_two_def)
  show ?thesis
    using solver_reset_only_by_r_clear
        [of "euler 1" simple_patch one_plant "[]" "\<lparr>s_time = 3, s_y = [9], s_calls = [Step]\<rparr>"
            tape_sampler "[]" "\<lparr>nrow = 1, ncol = 1, entries = [2]\<rparr>"]
      solver_reset_only_by_r_clear
        [of "euler 1" simple_patch two_by_two "[5]" "\<lparr>s_time = 3, s_y = [9], s_calls = [Step]\<rparr>"
            tape_sampler "[]" "\<lparr>nrow = 1, ncol = 1, entries = [2]\<rparr>"]
      step_stochastic_one_plant step_deterministic_one_plant step_stochastic_two_by_two
      births_two_by_two r_clear_two_by_two p s c r
    by simp
qed

section \<open>Seed redistribution\<close>

subsection \<open>The scheme of the design conserves seeds\<close>

lemma scheme_patch_split:
  "scheme_patch smp j remaining g = Inr (g', left, drawn) \<Longrightarrow>
     length left = length remaining \<and> length drawn = length remaining
     \<and> (\<forall>i < length remaining. left ! i + drawn ! i = remaining ! i)"
proof (induction remaining arbitrary: g g' left drawn)
  case Nil
  then show ?case by simp
next
  case (Cons r remaining)
  from Cons.prems obtain k g1 g2 left' drawn' where
    s: "scheme_patch smp j remaining g1 = Inr (g2, left', drawn')"
    and e: "left = (r - k) # left'" "drawn = k # drawn'"
    by (auto split: prod.splits draw.splits sum.splits)
  from Cons.IH [OF s] e show ?case by (auto simp: nth_Cons split: nat.splits)
qed

lemma scheme_patch_last:
  "scheme_patch smp 1 remaining g = Inr (g', left, drawn) \<Longrightarrow> drawn = remaining"
proof (induction remaining arbitrary: g g' left drawn)
  case Nil
  then show ?case by simp
next
  case (Cons r remaining)
  from Cons.prems obtain k g1 g2 left' drawn' where
    d: "rbinom smp g r 1 = (Count k, g1)"
    and s: "scheme_patch smp 1 remaining g1 = Inr (g2, left', drawn')"
    and e: "drawn = k # drawn'"
    by (auto split: prod.splits draw.splits sum.splits)
  from d have "k = r" by (auto simp: rbinom_def split: if_splits)
  with Cons.IH [OF s] e show ?case by simp
qed

lemma scheme_conserves:
  "scheme smp n remaining g = Inr (g', alloc) \<Longrightarrow> 0 < n \<Longrightarrow> i < length remaining
     \<Longrightarrow> allocated alloc i = remaining ! i"
proof (induction n arbitrary: remaining g alloc)
  case 0
  then show ?case by simp
next
  case (Suc n)
  from Suc.prems(1) obtain g1 left drawn alloc' where
    s: "scheme_patch smp (of_nat (Suc n)) remaining g = Inr (g1, left, drawn)"
    and r: "scheme smp n left g1 = Inr (g', alloc')"
    and a: "alloc = drawn # alloc'"
    by (auto split: sum.splits prod.splits simp del: of_nat_Suc)
  from scheme_patch_split [OF s] Suc.prems(3) have
    l: "i < length left" "i < length drawn" "left ! i + drawn ! i = remaining ! i" by auto
  show ?case
  proof (cases "n = 0")
    case True
    with s have "scheme_patch smp 1 remaining g = Inr (g1, left, drawn)" by simp
    from scheme_patch_last [OF this] r a True l show ?thesis by (simp add: allocated_def)
  next
    case False
    then have "0 < n" by simp
    from Suc.IH [OF r this l(1)] l a show ?thesis by (simp add: allocated_def)
  qed
qed

subsection \<open>What \<^verbatim>\<open>add_seeds\<close> does\<close>

text \<open>The inner loop takes one from \<open>j\<close> in every pass.\<close>

lemma add_seeds_inner_j:
  "add_seeds_inner smp jp is (g, j, seeds, seeds_i) = Inr (g', j', seeds', seeds_i')
    \<Longrightarrow> j' = j - of_nat (length is)"
proof (induction "is" arbitrary: g j seeds seeds_i)
  case Nil
  then show ?case by simp
next
  case (Cons i "is")
  from Cons.prems obtain k g1 where
    "add_seeds_inner smp jp is (g1, j - 1, seeds[i := seeds ! i - k], seeds_i[i := k])
       = Inr (g', j', seeds', seeds_i')"
    by (auto split: if_splits prod.splits draw.splits)
  from Cons.IH [OF this] show ?case by simp
qed

text \<open>With \<open>j = 0\<close> when the probability is computed, the first draw of the patch is NaN.\<close>

lemma add_seeds_inner_zero:
  "isl (add_seeds_inner smp 0 (i # is) (g, j, seeds, seeds_i))"
  by (simp add: rbinom_def)

lemma add_seeds_loop_second_patch:
  assumes "0 < n"
  shows "isl (add_seeds_loop ops smp n (p1 # p2 # rest) (g, of_nat n, seeds))"
proof (cases "add_seeds_inner smp (of_nat n) [0..<n] (g, of_nat n, seeds, replicate n 0)")
  case (Inl e)
  then show ?thesis by simp
next
  case (Inr st)
  obtain g' j' seeds' seeds_i where st: "st = (g', j', seeds', seeds_i)"
    by (cases st) auto
  from add_seeds_inner_j [OF Inr [unfolded st]] have j': "j' = 0" by simp
  from assms have u: "[0..<n] = 0 # [1..<n]" by (simp add: upt_conv_Cons)
  have "isl (add_seeds_inner smp 0 [0..<n] (g', 0, seeds', replicate n 0))"
    unfolding u by (rule add_seeds_inner_zero)
  then obtain e where "add_seeds_inner smp 0 [0..<n] (g', 0, seeds', replicate n 0) = Inl e"
    by (cases "add_seeds_inner smp 0 [0..<n] (g', 0, seeds', replicate n 0)") auto
  with Inr st j' show ?thesis by (simp split: sum.splits)
qed

text \<open>With one patch and one species the single patch is handed the whole total.\<close>

lemma add_seeds_one_patch_one_species:
  assumes "0 \<le> s0"
  shows "add_seeds ops smp [s0] g \<lparr>pars = ps, patches = [p], age = a, ode_solver = s\<rparr>
   = (case p_add_seeds ops [s0] p of
        Inl e \<Rightarrow> Inl e
      | Inr p' \<Rightarrow> Inr (g, \<lparr>pars = ps, patches = [p'], age = a, ode_solver = s\<rparr>, [[s0]]))"
  using assms by (simp add: add_seeds_def size_mc_def rbinom_def split: sum.splits)

text \<open>
  C1 does not hold of the code. In \<^verbatim>\<open>add_seeds\<close> the decrement \<^verbatim>\<open>j--\<close> stands in the
  increment of the inner loop, so after the first patch \<open>j\<close> has gone from \<^verbatim>\<open>size()\<close> to 0
  and the second patch draws with \<^verbatim>\<open>p = 1.0/0\<close>. For every metacommunity of two or more
  patches, every seed vector, every patch class and every outcome of the random draws,
  \<^verbatim>\<open>add_seeds\<close> therefore ends in an error and allocates nothing that sums to the totals.
\<close>

theorem add_seeds_fails_beyond_one_patch:
  assumes "2 \<le> size_mc m"
  shows "isl (add_seeds ops smp seeds g m)"
proof -
  from assms obtain p1 p2 rest where ps: "patches m = p1 # p2 # rest"
    by (cases "patches m"; cases "tl (patches m)") (auto simp: size_mc_def)
  from assms have "0 < size_mc m" by simp
  from add_seeds_loop_second_patch [OF this, of ops smp p1 p2 rest g seeds]
  obtain e where
    "add_seeds_loop ops smp (size_mc m) (patches m) (g, of_nat (size_mc m), seeds) = Inl e"
    unfolding ps
    by (cases "add_seeds_loop ops smp (size_mc m) (p1 # p2 # rest) (g, of_nat (size_mc m), seeds)")
      auto
  then show ?thesis by (simp add: add_seeds_def)
qed

theorem add_seeds_fails_beyond_one_patch_witness:
  "2 \<le> size_mc two_by_two \<and> isl (add_seeds simple_patch tape_sampler [1, 1] [] two_by_two)
   \<and> add_seeds simple_patch tape_sampler [1, 1] [] two_by_two = Inl NaN_Draw"
proof -
  have h: "2 \<le> size_mc two_by_two" by (simp add: size_mc_def two_by_two_def)
  have e: "add_seeds simple_patch tape_sampler [1, 1] [] two_by_two = Inl NaN_Draw" by code_simp
  show ?thesis
    using add_seeds_fails_beyond_one_patch [OF h, of simple_patch tape_sampler "[1, 1]" "[]"] h e
    by simp
qed

text \<open>
  C3 does not hold of the code. For two patches, two species, the totals 4 and 6 and a
  generator that will choose 1 and then 2, the scheme of the design draws with \<open>1/2\<close> for
  the first patch and with \<open>1/1\<close> for the second, which gets what remains: the patches
  receive \<open>[1, 2]\<close> and \<open>[3, 4]\<close>. \<^verbatim>\<open>add_seeds\<close> draws the same for the first patch, has
  then decremented \<open>j\<close> twice, and fails on the NaN drawn with \<open>1/0\<close> for the second.
\<close>

theorem add_seeds_departs_from_scheme:
  "scheme tape_sampler 2 [4, 6] [1, 2] = Inr ([], [[1, 2], [3, 4]])
   \<and> add_seeds_inner tape_sampler 2 [0..<2] ([1, 2], 2, [4, 6], replicate 2 0)
       = Inr ([], 0, [3, 4], [1, 2])
   \<and> add_seeds simple_patch tape_sampler [4, 6] [1, 2] two_by_two = Inl NaN_Draw"
  by code_simp

text \<open>
  C5 does not hold of the code. With a single patch the vector \<^verbatim>\<open>seeds_i\<close> has
  \<^verbatim>\<open>size()\<close> = 1 entries and the inner loop makes one pass: of the totals 3 and 4 for two
  species the patch is handed \<open>[3]\<close>, and the 4 seeds of the second species are never
  allocated, whatever the patch class does with the vector it gets.
\<close>

theorem add_seeds_one_patch_first_species_only:
  "add_seeds ops smp [3, 4] g \<lparr>pars = ps, patches = [p], age = a, ode_solver = s\<rparr>
   = (case p_add_seeds ops [3] p of
        Inl e \<Rightarrow> Inl e
      | Inr p' \<Rightarrow> Inr (g, \<lparr>pars = ps, patches = [p'], age = a, ode_solver = s\<rparr>, [[3]]))"
  by (simp add: add_seeds_def size_mc_def rbinom_def split: sum.splits)

section \<open>Births\<close>

text \<open>Whenever \<^verbatim>\<open>births\<close> returns, its vector has one entry per patch.\<close>

lemma births_loop_length:
  "births_loop ops ps n = Inr (r, ps') \<Longrightarrow> length r = length n"
proof (induction ps arbitrary: n ps')
  case Nil
  then show ?case by simp
next
  case (Cons p ps)
  from Cons.prems obtain b p' n' rest' where
    u: "util_sum n b = Inr n'" and l: "births_loop ops ps n' = Inr (r, rest')"
    by (auto split: prod.splits sum.splits)
  from u have "length n' = length n"
    by (auto simp: util_sum_def check_length_def split: if_splits)
  with Cons.IH [OF l] show ?case by simp
qed

lemma births_length:
  "births ops m = Inr (n, m') \<Longrightarrow> length n = size_mc m"
  by (auto simp: births_def dest: births_loop_length split: sum.splits prod.splits)

text \<open>
  C4 does not hold of the code. \<^verbatim>\<open>births\<close> starts from \<^verbatim>\<open>size()\<close> zeros, one per patch and
  not one per species. In a newly constructed metacommunity of one patch and two species
  the patch reports two counts, which \<^verbatim>\<open>util::sum\<close> cannot add to a vector of one entry:
  \<^verbatim>\<open>births\<close> raises instead of returning the two per-species totals.
\<close>

theorem births_one_patch_two_species:
  "births (spec_patch ext) (Metacommunity sops (spec_patch ext) \<lparr>n_patches = 1, n_strategies = 2\<rparr>)
     = Inl Length_Error"
  by (simp add: births_def Metacommunity_def initialise_def size_mc_def spec_patch_def patch_new_def
      patch_births_def util_sum_def check_length_def numeral_2_eq_2)

end
